theory Spec2Isabelle
  imports Complex_Main
begin

section \<open>Values of a plan\<close>

text \<open>
  A plan is a list of dictionaries with string keys; the values are what a JSON document
  (or a hand-written plan) holds: \<open>None\<close>, booleans, integers, finite floats, strings,
  lists and nested dictionaries. A string is the list of the bytes of its UTF-8 encoding.
\<close>

datatype pyval =
    PNone
  | PBool bool
  | PInt int
  | PFloat rat
  | PStr string
  | PList "pyval list"
  | PDict "(string \<times> pyval) list"

type_synonym step = "string \<Rightarrow> pyval option"

text \<open>Truth value of a Python object, as \<open>if x\<close> and \<open>not x\<close> read it.\<close>

fun truthy :: "pyval \<Rightarrow> bool" where
  "truthy PNone = False"
| "truthy (PBool b) = b"
| "truthy (PInt n) = (n \<noteq> 0)"
| "truthy (PFloat q) = (q \<noteq> 0)"
| "truthy (PStr s) = (s \<noteq> [])"
| "truthy (PList xs) = (xs \<noteq> [])"
| "truthy (PDict kvs) = (kvs \<noteq> [])"

section \<open>Exceptions\<close>

text \<open>
  The classes of \<open>Exception\<close> that the code raises or names in an \<open>except\<close> clause,
  and \<open>OtherException\<close> for every other subclass of \<open>Exception\<close>. An exception of a
  subclass of a listed class counts as that class, as an \<open>except\<close> clause takes it (a
  \<open>UnicodeError\<close> is a \<open>ValueError\<close>). The string is the text of the exception (for
  \<open>KeyError\<close>, the missing key).
\<close>

datatype exn =
    KeyError string
  | ValueError string
  | TypeError string
  | AttributeError string
  | OverflowError string
  | EOFError
  | TimeoutException
  | NoSuchElementException
  | ElementNotInteractableException string
  | StaleElementReferenceException
  | OtherException string

section \<open>The browser, the console and the Python runtime\<close>

type_synonym elem = nat

datatype locator =
  CSS_SELECTOR | XPATH | ID | NAME | LINK_TEXT | PARTIAL_LINK_TEXT | TAG_NAME

datatype amount = Pixels int | InnerHeight

text \<open>The scripts handed to \<open>driver.execute_script\<close>, one constructor per script text.\<close>

datatype script =
    ScrollIntoViewTrue elem
  | ScrollIntoViewSmooth elem
  | JsClick elem
  | ScrollByDown amount
  | ScrollByUp amount
  | ScrollToBottom
  | ScrollToTop

text \<open>
  \<open>Keys.RETURN\<close> of Selenium is the one-character string \<open>U+E006\<close>; in UTF-8 it is the
  bytes \<open>EE 80 86\<close>. It is the submit key that line 111 sends; the text to type and
  the submit key go through the same \<open>send_keys\<close>, as values.
\<close>

definition keys_return :: string where
  "keys_return = [CHR 0xEE, CHR 0x80, CHR 0x86]"

text \<open>
  Everything outside the repository is a parameter: the string functions of the
  runtime, the largest sleep length the platform represents, and the browser driver,
  whose state is \<open>'w\<close>. A driver call takes the state and returns the new state with
  either the exception it raised or its value. The bounded waits of Selenium
  (\<open>WebDriverWait(...).until\<close>) are single calls that return the element or raise
  \<open>TimeoutException\<close>; \<open>elapse\<close> is what a \<open>time.sleep\<close> does to the page.
\<close>

record 'w env =
  str_lower :: "string \<Rightarrow> string"
  str_strip :: "string \<Rightarrow> string"
  int_of_str :: "string \<Rightarrow> int option"
  sleep_max :: int
  elapse :: "'w \<Rightarrow> rat \<Rightarrow> 'w"
  console_input :: "'w \<Rightarrow> 'w \<times> (exn + string)"
  drv_get :: "'w \<Rightarrow> pyval \<Rightarrow> 'w \<times> (exn + unit)"
  drv_until_ready :: "'w \<Rightarrow> nat \<Rightarrow> 'w \<times> (exn + unit)"
  drv_until_present :: "'w \<Rightarrow> nat \<Rightarrow> locator \<Rightarrow> pyval \<Rightarrow> 'w \<times> (exn + elem)"
  drv_until_clickable :: "'w \<Rightarrow> nat \<Rightarrow> locator \<Rightarrow> pyval \<Rightarrow> 'w \<times> (exn + elem)"
  drv_execute_script :: "'w \<Rightarrow> script \<Rightarrow> 'w \<times> (exn + unit)"
  el_is_displayed :: "'w \<Rightarrow> elem \<Rightarrow> 'w \<times> (exn + bool)"
  el_is_enabled :: "'w \<Rightarrow> elem \<Rightarrow> 'w \<times> (exn + bool)"
  el_clear :: "'w \<Rightarrow> elem \<Rightarrow> 'w \<times> (exn + unit)"
  el_send_keys :: "'w \<Rightarrow> elem \<Rightarrow> pyval \<Rightarrow> 'w \<times> (exn + unit)"
  el_click :: "'w \<Rightarrow> elem \<Rightarrow> 'w \<times> (exn + unit)"
  el_text :: "'w \<Rightarrow> elem \<Rightarrow> 'w \<times> (exn + string)"
  el_get_attribute :: "'w \<Rightarrow> elem \<Rightarrow> string \<Rightarrow> 'w \<times> (exn + string option)"

section \<open>The agent and its trace\<close>

text \<open>
  The trace is the sequence of observable effects of a run: every entry into an
  operation of the Action Library with its arguments, every call to the driver or the
  console with its outcome, and every sleep.
\<close>

datatype call =
    Get pyval
  | UntilReady nat
  | UntilPresent nat locator pyval
  | UntilClickable nat locator pyval
  | ExecuteScript script
  | IsDisplayed elem
  | IsEnabled elem
  | Clear elem
  | SendKeys elem pyval
  | Click elem
  | ReadText elem
  | GetAttribute elem string
  | Input

datatype rval = RUnit | RElem elem | RBool bool | RStr string | RAttr "string option"

datatype event =
    Entered string "pyval list"
  | Called call "exn + rval"
  | Slept rat

text \<open>Keys of the Extracted-Data Store: Python compares \<open>1\<close>, \<open>1.0\<close> and \<open>True\<close> equal.\<close>

datatype pykey = KNone | KNum rat | KStr string

fun key_of :: "pyval \<Rightarrow> pykey option" where
  "key_of PNone = Some KNone"
| "key_of (PBool b) = Some (KNum (if b then 1 else 0))"
| "key_of (PInt n) = Some (KNum (of_int n))"
| "key_of (PFloat q) = Some (KNum q)"
| "key_of (PStr s) = Some (KStr s)"
| "key_of (PList xs) = None"
| "key_of (PDict kvs) = None"

record 'w agent =
  driver_live :: bool
  world :: 'w
  extracted_data :: "pykey \<Rightarrow> pyval option"
  trace :: "event list"

type_synonym ('w, 'r) comp = "'w agent \<Rightarrow> 'w agent \<times> (exn + 'r)"

definition return_ex :: "'r \<Rightarrow> ('w, 'r) comp" where
  "return_ex x a = (a, Inr x)"

definition raise_ex :: "exn \<Rightarrow> ('w, 'r) comp" where
  "raise_ex e a = (a, Inl e)"

definition bind_ex :: "('w, 'r) comp \<Rightarrow> ('r \<Rightarrow> ('w, 's) comp) \<Rightarrow> ('w, 's) comp" where
  "bind_ex m f a = (case m a of (a', Inl e) \<Rightarrow> (a', Inl e) | (a', Inr x) \<Rightarrow> f x a')"

text \<open>\<open>try: m except Exception as e: h e\<close>\<close>

definition try_except :: "('w, 'r) comp \<Rightarrow> (exn \<Rightarrow> ('w, 'r) comp) \<Rightarrow> ('w, 'r) comp" where
  "try_except m h a = (case m a of (a', Inl e) \<Rightarrow> h e a' | (a', Inr x) \<Rightarrow> (a', Inr x))"

definition lift_ex :: "exn + 'r \<Rightarrow> ('w, 'r) comp" where
  "lift_ex r a = (a, r)"

definition record_event :: "event \<Rightarrow> 'w agent \<Rightarrow> 'w agent" where
  "record_event ev a = a\<lparr>trace := trace a @ [ev]\<rparr>"

definition entered :: "string \<Rightarrow> pyval list \<Rightarrow> ('w, unit) comp" where
  "entered name args a = (record_event (Entered name args) a, Inr ())"

text \<open>
  A call on \<open>self.driver\<close>: an \<open>AttributeError\<close> when the handle is \<open>None\<close>, otherwise
  the driver's answer, recorded in the trace.
\<close>

definition on_driver :: "call \<Rightarrow> ('r \<Rightarrow> rval) \<Rightarrow> ('w \<Rightarrow> 'w \<times> (exn + 'r)) \<Rightarrow> ('w, 'r) comp" where
  "on_driver c wrap f a =
     (if driver_live a then
        (case f (world a) of (w', r) \<Rightarrow>
           (record_event (Called c (map_sum id wrap r)) (a\<lparr>world := w'\<rparr>), r))
      else (a, Inl (AttributeError ''NoneType object has no such attribute'')))"

text \<open>A call on an element already found, or on the console.\<close>

definition on_object :: "call \<Rightarrow> ('r \<Rightarrow> rval) \<Rightarrow> ('w \<Rightarrow> 'w \<times> (exn + 'r)) \<Rightarrow> ('w, 'r) comp" where
  "on_object c wrap f a =
     (case f (world a) of (w', r) \<Rightarrow>
        (record_event (Called c (map_sum id wrap r)) (a\<lparr>world := w'\<rparr>), r))"

text \<open>\<open>time.sleep\<close> on a literal (0.5 or 1): it cannot raise.\<close>

definition pause :: "'w env \<Rightarrow> rat \<Rightarrow> ('w, unit) comp" where
  "pause env d a = (record_event (Slept d) (a\<lparr>world := elapse env (world a) d\<rparr>), Inr ())"

text \<open>
  \<open>time.sleep(n)\<close> on an integer. The length is first converted to the platform's
  clock (64-bit nanoseconds in CPython), which raises \<open>OverflowError\<close> for a length
  beyond \<open>sleep_max\<close> in either direction; only then is the sign tested, and a negative
  length raises \<open>ValueError\<close>.
\<close>

definition time_sleep :: "'w env \<Rightarrow> int \<Rightarrow> ('w, unit) comp" where
  "time_sleep env n =
     (if n < - sleep_max env \<or> sleep_max env < n then
        raise_ex (OverflowError ''timestamp too large to convert to C _PyTime_t'')
      else if n < 0 then raise_ex (ValueError ''sleep length must be non-negative'')
      else pause env (of_int n))"

text \<open>\<open>self.extracted_data[k] = v\<close>: an unhashable key raises \<open>TypeError\<close>.\<close>

definition store_set :: "pyval \<Rightarrow> pyval \<Rightarrow> ('w, unit) comp" where
  "store_set k v a =
     (case key_of k of
        None \<Rightarrow> (a, Inl (TypeError ''unhashable type''))
      | Some k' \<Rightarrow> (a\<lparr>extracted_data := (extracted_data a)(k' \<mapsto> v)\<rparr>, Inr ()))"

section \<open>Selectors\<close>

definition strategies :: "string \<Rightarrow> locator option" where
  "strategies = map_of
     [(''css'', CSS_SELECTOR), (''xpath'', XPATH), (''id'', ID), (''name'', NAME),
      (''link_text'', LINK_TEXT), (''partial_link_text'', PARTIAL_LINK_TEXT),
      (''tag_name'', TAG_NAME)]"

text \<open>\<open>x.lower()\<close>: only a string has the method.\<close>

definition py_lower :: "'w env \<Rightarrow> pyval \<Rightarrow> exn + string" where
  "py_lower env v =
     (case v of PStr s \<Rightarrow> Inr (str_lower env s)
      | _ \<Rightarrow> Inl (AttributeError ''object has no attribute lower''))"

text \<open>
  \<open>strategies.get(selector_type.lower())\<close>; the values of the table are non-empty
  strings, so \<open>not strategy\<close> holds exactly when the key is missing.
\<close>

definition get_by_strategy :: "'w env \<Rightarrow> pyval \<Rightarrow> exn + locator" where
  "get_by_strategy env selector_type =
     (case selector_type of
        PStr s \<Rightarrow>
          (case strategies (str_lower env s) of
             None \<Rightarrow> Inl (ValueError (''Unsupported selector type: '' @ s))
           | Some strategy \<Rightarrow> Inr strategy)
      | _ \<Rightarrow> Inl (AttributeError ''object has no attribute lower''))"

definition find_element :: "'w env \<Rightarrow> pyval \<Rightarrow> pyval \<Rightarrow> ('w, elem) comp" where
  "find_element env selector_type selector_value =
     bind_ex (lift_ex (get_by_strategy env selector_type)) (\<lambda>by_strategy.
       on_driver (UntilPresent 10 by_strategy selector_value) RElem
         (\<lambda>w. drv_until_present env w 10 by_strategy selector_value))"

definition find_clickable_element :: "'w env \<Rightarrow> pyval \<Rightarrow> pyval \<Rightarrow> ('w, elem) comp" where
  "find_clickable_element env selector_type selector_value =
     bind_ex (lift_ex (get_by_strategy env selector_type)) (\<lambda>by_strategy.
       on_driver (UntilClickable 10 by_strategy selector_value) RElem
         (\<lambda>w. drv_until_clickable env w 10 by_strategy selector_value))"

section \<open>Calls on the driver, on an element and on the console\<close>

definition call_get :: "'w env \<Rightarrow> pyval \<Rightarrow> ('w, unit) comp" where
  "call_get env url = on_driver (Get url) (\<lambda>_. RUnit) (\<lambda>w. drv_get env w url)"

definition call_until_ready :: "'w env \<Rightarrow> nat \<Rightarrow> ('w, unit) comp" where
  "call_until_ready env timeout =
     on_driver (UntilReady timeout) (\<lambda>_. RUnit) (\<lambda>w. drv_until_ready env w timeout)"

definition call_execute_script :: "'w env \<Rightarrow> script \<Rightarrow> ('w, unit) comp" where
  "call_execute_script env s =
     on_driver (ExecuteScript s) (\<lambda>_. RUnit) (\<lambda>w. drv_execute_script env w s)"

definition call_is_displayed :: "'w env \<Rightarrow> elem \<Rightarrow> ('w, bool) comp" where
  "call_is_displayed env element =
     on_object (IsDisplayed element) RBool (\<lambda>w. el_is_displayed env w element)"

definition call_is_enabled :: "'w env \<Rightarrow> elem \<Rightarrow> ('w, bool) comp" where
  "call_is_enabled env element =
     on_object (IsEnabled element) RBool (\<lambda>w. el_is_enabled env w element)"

definition call_clear :: "'w env \<Rightarrow> elem \<Rightarrow> ('w, unit) comp" where
  "call_clear env element = on_object (Clear element) (\<lambda>_. RUnit) (\<lambda>w. el_clear env w element)"

definition call_send_keys :: "'w env \<Rightarrow> elem \<Rightarrow> pyval \<Rightarrow> ('w, unit) comp" where
  "call_send_keys env element ks =
     on_object (SendKeys element ks) (\<lambda>_. RUnit) (\<lambda>w. el_send_keys env w element ks)"

definition call_click :: "'w env \<Rightarrow> elem \<Rightarrow> ('w, unit) comp" where
  "call_click env element = on_object (Click element) (\<lambda>_. RUnit) (\<lambda>w. el_click env w element)"

definition call_text :: "'w env \<Rightarrow> elem \<Rightarrow> ('w, string) comp" where
  "call_text env element = on_object (ReadText element) RStr (\<lambda>w. el_text env w element)"

definition call_get_attribute :: "'w env \<Rightarrow> elem \<Rightarrow> string \<Rightarrow> ('w, string option) comp" where
  "call_get_attribute env element name =
     on_object (GetAttribute element name) RAttr (\<lambda>w. el_get_attribute env w element name)"

definition call_input :: "'w env \<Rightarrow> ('w, string) comp" where
  "call_input env = on_object Input RStr (console_input env)"

section \<open>The Action Library\<close>

definition navigate :: "'w env \<Rightarrow> pyval \<Rightarrow> ('w, bool) comp" where
  "navigate env url =
     bind_ex (entered ''navigate'' [url]) (\<lambda>_.
     try_except
       (bind_ex (call_get env url) (\<lambda>_.
        bind_ex (call_until_ready env 15) (\<lambda>_.
        return_ex True)))
       (\<lambda>e. return_ex False))"

text \<open>\<open>not element.is_displayed() or not element.is_enabled()\<close>, with the short cut of \<open>or\<close>.\<close>

definition not_interactable :: "'w env \<Rightarrow> elem \<Rightarrow> ('w, bool) comp" where
  "not_interactable env element =
     bind_ex (call_is_displayed env element) (\<lambda>displayed.
     if \<not> displayed then return_ex True
     else bind_ex (call_is_enabled env element) (\<lambda>enabled. return_ex (\<not> enabled)))"

text \<open>Lines 108 to 112 of \<open>type_text\<close>: clear, inject the text, and the submit key when asked.\<close>

definition inject_text :: "'w env \<Rightarrow> elem \<Rightarrow> pyval \<Rightarrow> pyval \<Rightarrow> ('w, bool) comp" where
  "inject_text env element txt enter_after =
     bind_ex (call_clear env element) (\<lambda>_.
     bind_ex (call_send_keys env element txt) (\<lambda>_.
     bind_ex (if truthy enter_after then call_send_keys env element (PStr keys_return)
              else return_ex ()) (\<lambda>_.
     return_ex True)))"

definition type_text :: "'w env \<Rightarrow> pyval \<Rightarrow> pyval \<Rightarrow> pyval \<Rightarrow> pyval \<Rightarrow> ('w, bool) comp" where
  "type_text env selector_type selector_value txt enter_after =
     bind_ex (entered ''type_text'' [selector_type, selector_value, txt, enter_after]) (\<lambda>_.
     try_except
       (bind_ex (find_element env selector_type selector_value) (\<lambda>element.
        bind_ex (not_interactable env element) (\<lambda>blocked.
        bind_ex
          (if blocked then
             bind_ex (call_execute_script env (ScrollIntoViewTrue element)) (\<lambda>_.
             bind_ex (pause env (1 / 2)) (\<lambda>_.
             bind_ex (not_interactable env element) (\<lambda>still_blocked.
             if still_blocked then
               raise_ex (ElementNotInteractableException ''Element still not interactable after scroll'')
             else return_ex ())))
           else return_ex ()) (\<lambda>_.
        inject_text env element txt enter_after))))
       (\<lambda>e. return_ex False))"

text \<open>The fallback of \<open>click_element\<close> (lines 143 to 149).\<close>

definition js_click_fallback :: "'w env \<Rightarrow> pyval \<Rightarrow> pyval \<Rightarrow> ('w, bool) comp" where
  "js_click_fallback env selector_type selector_value =
     try_except
       (bind_ex (find_element env selector_type selector_value) (\<lambda>element_to_js_click.
        bind_ex (call_execute_script env (JsClick element_to_js_click)) (\<lambda>_.
        return_ex True)))
       (\<lambda>js_e. return_ex False)"

definition click_handler :: "'w env \<Rightarrow> pyval \<Rightarrow> pyval \<Rightarrow> exn \<Rightarrow> ('w, bool) comp" where
  "click_handler env selector_type selector_value e =
     (case e of
        TimeoutException \<Rightarrow> return_ex False
      | NoSuchElementException \<Rightarrow> return_ex False
      | ElementNotInteractableException _ \<Rightarrow> js_click_fallback env selector_type selector_value
      | StaleElementReferenceException \<Rightarrow> return_ex False
      | _ \<Rightarrow> return_ex False)"

definition click_element :: "'w env \<Rightarrow> pyval \<Rightarrow> pyval \<Rightarrow> ('w, bool) comp" where
  "click_element env selector_type selector_value =
     bind_ex (entered ''click_element'' [selector_type, selector_value]) (\<lambda>_.
     try_except
       (bind_ex (find_clickable_element env selector_type selector_value) (\<lambda>element.
        bind_ex
          (try_except
             (bind_ex (call_execute_script env (ScrollIntoViewSmooth element)) (\<lambda>_.
              pause env (1 / 2)))
             (\<lambda>_. return_ex ())) (\<lambda>_.
        bind_ex (call_click env element) (\<lambda>_.
        return_ex True))))
       (click_handler env selector_type selector_value))"

definition wait :: "'w env \<Rightarrow> int \<Rightarrow> ('w, bool) comp" where
  "wait env seconds =
     bind_ex (entered ''wait'' [PInt seconds]) (\<lambda>_.
     bind_ex (time_sleep env seconds) (\<lambda>_.
     return_ex True))"

text \<open>
  \<open>element.text or element.get_attribute("value") or element.get_attribute("innerText")\<close>:
  the first operand that is true, else the last one; a later operand is evaluated only
  when the earlier ones are false.
\<close>

definition read_text_content :: "'w env \<Rightarrow> elem \<Rightarrow> ('w, string option) comp" where
  "read_text_content env element =
     bind_ex (call_text env element) (\<lambda>t.
     if t \<noteq> [] then return_ex (Some t)
     else bind_ex (call_get_attribute env element ''value'') (\<lambda>v.
       if v \<noteq> None \<and> v \<noteq> Some [] then return_ex v
       else call_get_attribute env element ''innerText''))"

text \<open>\<open>text_content.strip() if text_content else ""\<close>\<close>

definition stripped_or_empty :: "'w env \<Rightarrow> string option \<Rightarrow> string" where
  "stripped_or_empty env text_content =
     (case text_content of
        None \<Rightarrow> []
      | Some s \<Rightarrow> if s \<noteq> [] then str_strip env s else [])"

definition extract_text :: "'w env \<Rightarrow> pyval \<Rightarrow> pyval \<Rightarrow> pyval \<Rightarrow> ('w, bool) comp" where
  "extract_text env selector_type selector_value variable_name =
     bind_ex (entered ''extract_text'' [selector_type, selector_value, variable_name]) (\<lambda>_.
     try_except
       (bind_ex (find_element env selector_type selector_value) (\<lambda>element.
        bind_ex (read_text_content env element) (\<lambda>text_content.
        bind_ex (store_set variable_name (PStr (stripped_or_empty env text_content))) (\<lambda>_.
        return_ex True))))
       (\<lambda>e. bind_ex (store_set variable_name PNone) (\<lambda>_. return_ex False)))"

definition scroll_and_settle :: "'w env \<Rightarrow> script \<Rightarrow> ('w, bool) comp" where
  "scroll_and_settle env s =
     bind_ex (call_execute_script env s) (\<lambda>_.
     bind_ex (pause env (1 / 2)) (\<lambda>_.
     return_ex True))"

definition scroll_window :: "'w env \<Rightarrow> pyval \<Rightarrow> int \<Rightarrow> ('w, bool) comp" where
  "scroll_window env direction pixels =
     bind_ex (entered ''scroll_window'' [direction, PInt pixels]) (\<lambda>_.
     try_except
       (bind_ex (lift_ex (py_lower env direction)) (\<lambda>d.
        if d = ''down'' then
          scroll_and_settle env (ScrollByDown (if pixels \<noteq> 0 then Pixels pixels else InnerHeight))
        else if d = ''up'' then
          scroll_and_settle env (ScrollByUp (if pixels \<noteq> 0 then Pixels pixels else InnerHeight))
        else if d = ''to_bottom'' then scroll_and_settle env ScrollToBottom
        else if d = ''to_top'' then scroll_and_settle env ScrollToTop
        else return_ex False))
       (\<lambda>e. return_ex False))"

definition ask_user :: "'w env \<Rightarrow> pyval \<Rightarrow> ('w, string) comp" where
  "ask_user env question =
     bind_ex (entered ''ask_user'' [question]) (\<lambda>_.
     call_input env)"

section \<open>The Plan Interpreter\<close>

text \<open>
  \<open>execute_plan\<close> takes the plan and the agent and returns the agent with the verdict.
  Its second parameter, \<open>current_instruction\<close>, is not read by its body and is left
  out; \<open>print\<close> is taken to succeed and leaves no mark. The exceptions of the model are
  the subclasses of \<open>Exception\<close>, which is what \<open>except Exception\<close> catches.
\<close>

text \<open>\<open>step.get(k)\<close>, \<open>step.get(k, default)\<close> and \<open>step[k]\<close>.\<close>

definition dict_get :: "step \<Rightarrow> string \<Rightarrow> pyval" where
  "dict_get st k = (case st k of None \<Rightarrow> PNone | Some v \<Rightarrow> v)"

definition dict_get_default :: "step \<Rightarrow> string \<Rightarrow> pyval \<Rightarrow> pyval" where
  "dict_get_default st k d = (case st k of None \<Rightarrow> d | Some v \<Rightarrow> v)"

definition subscript :: "step \<Rightarrow> string \<Rightarrow> exn + pyval" where
  "subscript st k = (case st k of None \<Rightarrow> Inl (KeyError k) | Some v \<Rightarrow> Inr v)"

text \<open>
  \<open>int(x)\<close>: an integer is itself, a boolean is 0 or 1, a float is truncated towards
  zero, a string is parsed (\<open>ValueError\<close> when it is no integer literal), anything else
  is a \<open>TypeError\<close>.
\<close>

definition py_int :: "'w env \<Rightarrow> pyval \<Rightarrow> exn + int" where
  "py_int env v =
     (case v of
        PInt n \<Rightarrow> Inr n
      | PBool b \<Rightarrow> Inr (if b then 1 else 0)
      | PFloat q \<Rightarrow> Inr (if 0 \<le> q then \<lfloor>q\<rfloor> else \<lceil>q\<rceil>)
      | PStr s \<Rightarrow>
          (case int_of_str env s of
             None \<Rightarrow> Inl (ValueError ''invalid literal for int() with base 10'')
           | Some n \<Rightarrow> Inr n)
      | _ \<Rightarrow> Inl (TypeError ''int() argument must be a string, a bytes-like object or a real number''))"

text \<open>The decimal digits of a number, for the key \<open>f"user_response_to_{i+1}"\<close>.\<close>

fun decimal :: "nat \<Rightarrow> string" where
  "decimal n =
     (if n < 10 then [''0123456789'' ! n]
      else decimal (n div 10) @ [''0123456789'' ! (n mod 10)])"

declare decimal.simps [simp del]

datatype message =
    BrowserNotInitialized
  | PlannerMessage pyval
  | UnknownActionMessage pyval
  | ActionFailed pyval step
  | MissingParameter pyval exn
  | InvalidParameter pyval exn
  | UnexpectedError pyval exn

text \<open>
  What the body of the \<open>try\<close> of one step (lines 228 to 261) comes to: the boolean an
  operation of the Action Library returned, the message of an \<open>error\<close> record, or an
  unknown action.
\<close>

datatype dispatched = OpResult bool | PlanError pyval | UnknownAction pyval

definition as_result :: "('w, bool) comp \<Rightarrow> ('w, dispatched) comp" where
  "as_result m = bind_ex m (\<lambda>step_success. return_ex (OpResult step_success))"

definition dispatch :: "'w env \<Rightarrow> nat \<Rightarrow> step \<Rightarrow> ('w, dispatched) comp" where
  "dispatch env i st =
     (let action = dict_get st ''action'' in
      if action = PStr ''navigate'' then
        (let url = dict_get st ''url'' in
         if \<not> truthy url then raise_ex (ValueError (CHR 0x27 # ''url'' @ CHR 0x27 # '' missing for navigate action.''))
         else as_result (navigate env url))
      else if action = PStr ''type'' then
        bind_ex (lift_ex (subscript st ''selector_type'')) (\<lambda>selector_type.
        bind_ex (lift_ex (subscript st ''selector_value'')) (\<lambda>selector_value.
        bind_ex (lift_ex (subscript st ''text'')) (\<lambda>txt.
        as_result (type_text env selector_type selector_value txt
          (dict_get_default st ''enter_after'' (PBool False))))))
      else if action = PStr ''click'' then
        bind_ex (lift_ex (subscript st ''selector_type'')) (\<lambda>selector_type.
        bind_ex (lift_ex (subscript st ''selector_value'')) (\<lambda>selector_value.
        as_result (click_element env selector_type selector_value)))
      else if action = PStr ''wait'' then
        bind_ex (lift_ex (subscript st ''seconds'')) (\<lambda>seconds.
        bind_ex (lift_ex (py_int env seconds)) (\<lambda>n.
        as_result (wait env n)))
      else if action = PStr ''extract_text'' then
        bind_ex (lift_ex (subscript st ''selector_type'')) (\<lambda>selector_type.
        bind_ex (lift_ex (subscript st ''selector_value'')) (\<lambda>selector_value.
        bind_ex (lift_ex (subscript st ''variable_name'')) (\<lambda>variable_name.
        as_result (extract_text env selector_type selector_value variable_name))))
      else if action = PStr ''scroll'' then
        bind_ex (lift_ex (py_int env (dict_get_default st ''pixels'' (PInt 0)))) (\<lambda>pixels.
        as_result (scroll_window env (dict_get_default st ''direction'' (PStr ''down'')) pixels))
      else if action = PStr ''ask_user'' then
        bind_ex (lift_ex (subscript st ''question'')) (\<lambda>question.
        bind_ex (ask_user env question) (\<lambda>user_response.
        bind_ex (store_set (PStr (''user_response_to_'' @ decimal (i + 1))) (PStr user_response)) (\<lambda>_.
        return_ex (OpResult True))))
      else if action = PStr ''error'' then return_ex (PlanError (dict_get st ''message''))
      else return_ex (UnknownAction action))"

text \<open>The three \<open>except\<close> clauses of the step loop (lines 273 to 287).\<close>

definition fault_message :: "pyval \<Rightarrow> exn \<Rightarrow> message" where
  "fault_message action e =
     (case e of
        KeyError _ \<Rightarrow> MissingParameter action e
      | ValueError _ \<Rightarrow> InvalidParameter action e
      | _ \<Rightarrow> UnexpectedError action e)"

text \<open>
  The verdict that ends the loop after a step, or \<open>None\<close> when the loop goes on to the
  next step.
\<close>

definition step_verdict :: "step \<Rightarrow> exn + dispatched \<Rightarrow> (bool \<times> message option) option" where
  "step_verdict st r =
     (case r of
        Inr (OpResult step_success) \<Rightarrow>
          if \<not> step_success then Some (False, Some (ActionFailed (dict_get st ''action'') st))
          else None
      | Inr (PlanError m) \<Rightarrow> Some (False, if m = PNone then None else Some (PlannerMessage m))
      | Inr (UnknownAction action) \<Rightarrow> Some (False, Some (UnknownActionMessage action))
      | Inl e \<Rightarrow> Some (False, Some (fault_message (dict_get st ''action'') e)))"

fun run_steps :: "'w env \<Rightarrow> nat \<Rightarrow> step list \<Rightarrow> 'w agent \<Rightarrow> 'w agent \<times> bool \<times> message option" where
  "run_steps env i [] a = (a, True, None)"
| "run_steps env i (st # rest) a =
     (case dispatch env i st a of (a', r) \<Rightarrow>
        (case step_verdict st r of
           Some verdict \<Rightarrow> (a', verdict)
         | None \<Rightarrow> run_steps env (Suc i) rest (fst (pause env 1 a'))))"

definition execute_plan :: "'w env \<Rightarrow> step list \<Rightarrow> 'w agent \<Rightarrow> 'w agent \<times> bool \<times> message option" where
  "execute_plan env plan a =
     (if \<not> driver_live a then (a, False, Some BrowserNotInitialized)
      else run_steps env 0 plan a)"

section \<open>A test double: ASCII strings and a driver that always succeeds\<close>

definition ascii_lower :: "string \<Rightarrow> string" where
  "ascii_lower s =
     map (\<lambda>c. case map_of (zip ''ABCDEFGHIJKLMNOPQRSTUVWXYZ'' ''abcdefghijklmnopqrstuvwxyz'') c of
                 None \<Rightarrow> c | Some l \<Rightarrow> l) s"

definition ascii_space :: "char \<Rightarrow> bool" where
  "ascii_space c = (c \<in> set [CHR '' '', CHR 0x09, CHR 0x0A, CHR 0x0B, CHR 0x0C, CHR 0x0D])"

definition ascii_strip :: "string \<Rightarrow> string" where
  "ascii_strip s = rev (dropWhile ascii_space (rev (dropWhile ascii_space s)))"

definition digit_value :: "char \<Rightarrow> int option" where
  "digit_value c = map_of (zip ''0123456789'' [0, 1, 2, 3, 4, 5, 6, 7, 8, 9]) c"

text \<open>Digits with single underscores between them, as an integer literal allows.\<close>

fun digits_value :: "int \<Rightarrow> bool \<Rightarrow> string \<Rightarrow> int option" where
  "digits_value acc after_digit [] = (if after_digit then Some acc else None)"
| "digits_value acc after_digit (c # cs) =
     (if c = CHR ''_'' then (if after_digit then digits_value acc False cs else None)
      else case digit_value c of
             None \<Rightarrow> None
           | Some d \<Rightarrow> digits_value (10 * acc + d) True cs)"

definition ascii_int_of_str :: "string \<Rightarrow> int option" where
  "ascii_int_of_str s =
     (case ascii_strip s of
        [] \<Rightarrow> None
      | c # cs \<Rightarrow>
          if c = CHR ''-'' then map_option uminus (digits_value 0 False cs)
          else if c = CHR ''+'' then digits_value 0 False cs
          else digits_value 0 False (c # cs))"

definition always_ok :: "unit env" where
  "always_ok =
     \<lparr> str_lower = ascii_lower,
       str_strip = ascii_strip,
       int_of_str = ascii_int_of_str,
       sleep_max = 9223372036,
       elapse = (\<lambda>w d. w),
       console_input = (\<lambda>w. (w, Inr ''yes'')),
       drv_get = (\<lambda>w url. (w, Inr ())),
       drv_until_ready = (\<lambda>w timeout. (w, Inr ())),
       drv_until_present = (\<lambda>w timeout strategy v. (w, Inr 7)),
       drv_until_clickable = (\<lambda>w timeout strategy v. (w, Inr 7)),
       drv_execute_script = (\<lambda>w s. (w, Inr ())),
       el_is_displayed = (\<lambda>w element. (w, Inr True)),
       el_is_enabled = (\<lambda>w element. (w, Inr True)),
       el_clear = (\<lambda>w element. (w, Inr ())),
       el_send_keys = (\<lambda>w element ks. (w, Inr ())),
       el_click = (\<lambda>w element. (w, Inr ())),
       el_text = (\<lambda>w element. (w, Inr ''  Example Domain '')),
       el_get_attribute = (\<lambda>w element name. (w, Inr None)) \<rparr>"

definition fresh_agent :: "unit agent" where
  "fresh_agent = \<lparr> driver_live = True, world = (), extracted_data = Map.empty, trace = [] \<rparr>"

text \<open>The steps of a plan, as the dictionaries a planner writes.\<close>

definition step_of :: "(string \<times> pyval) list \<Rightarrow> step" where
  "step_of kvs = map_of kvs"

definition wait_step :: step where
  "wait_step = step_of [(''action'', PStr ''wait''), (''seconds'', PInt 0)]"


definition sideways_step :: step where
  "sideways_step = step_of [(''action'', PStr ''scroll''), (''direction'', PStr ''sideways'')]"

definition error_step :: step where
  "error_step = step_of [(''action'', PStr ''error''), (''message'', PStr ''cannot plan this'')]"

definition bare_error_step :: step where
  "bare_error_step = step_of [(''action'', PStr ''error'')]"

definition bare_click_step :: step where
  "bare_click_step = step_of [(''action'', PStr ''click'')]"



text \<open>Variants of the driver: one answer changed.\<close>

definition blank_element :: "unit env" where
  "blank_element = always_ok\<lparr>el_text := (\<lambda>w element. (w, Inr [])),
     el_get_attribute := (\<lambda>w element name. (w, Inr (if name = ''value'' then Some [] else None)))\<rparr>"

definition no_element :: "unit env" where
  "no_element = always_ok\<lparr>drv_until_present := (\<lambda>w timeout strategy v. (w, Inl TimeoutException))\<rparr>"

definition blocked_click :: "unit env" where
  "blocked_click = always_ok\<lparr>el_click :=
     (\<lambda>w element. (w, Inl (ElementNotInteractableException ''element not interactable'')))\<rparr>"

definition failing_keys :: "unit env" where
  "failing_keys = always_ok\<lparr>el_send_keys := (\<lambda>w element ks. (w, Inl StaleElementReferenceException))\<rparr>"

section \<open>Notions the properties are stated with\<close>

text \<open>
  Every step of the plan is dispatched to its operation and the operation returns
  \<open>True\<close>; the steps run one after the other, each in the state its predecessor and the
  pause after it left.
\<close>

fun every_step_succeeds :: "'w env \<Rightarrow> nat \<Rightarrow> step list \<Rightarrow> 'w agent \<Rightarrow> bool" where
  "every_step_succeeds env i [] a = True"
| "every_step_succeeds env i (st # rest) a =
     (case dispatch env i st a of (a', r) \<Rightarrow>
        r = Inr (OpResult True) \<and> every_step_succeeds env (Suc i) rest (fst (pause env 1 a')))"

text \<open>
  The value the specification asks \<open>extract_text\<close> to store: the first non-empty of the
  visible text, the value attribute and the inner-text attribute, stripped, or the
  empty string when all three are empty.
\<close>

definition spec_extracted :: "'w env \<Rightarrow> string \<Rightarrow> string option \<Rightarrow> string option \<Rightarrow> string" where
  "spec_extracted env visible value_attr inner_text =
     (if visible \<noteq> [] then str_strip env visible
      else case value_attr of
        Some (c # cs) \<Rightarrow> str_strip env (c # cs)
      | _ \<Rightarrow> (case inner_text of
                Some (c # cs) \<Rightarrow> str_strip env (c # cs)
              | _ \<Rightarrow> []))"

text \<open>The events a run added to the trace, and the kinds of event the properties count.\<close>

definition new_events :: "'w agent \<Rightarrow> 'w agent \<Rightarrow> event list" where
  "new_events a a' = drop (length (trace a)) (trace a')"

fun is_entered :: "event \<Rightarrow> bool" where
  "is_entered (Entered name args) = True"
| "is_entered ev = False"

fun is_keys :: "event \<Rightarrow> bool" where
  "is_keys (Called (SendKeys element ks) r) = True"
| "is_keys ev = False"

definition no_keys :: "event list \<Rightarrow> bool" where
  "no_keys evs = (filter is_keys evs = [])"

text \<open>
  A value sent with \<open>send_keys\<close> injects a submit keystroke when the \<open>RETURN\<close> key is
  among its characters: \<open>p\<close> occurs in \<open>s\<close> as a run of consecutive bytes. For a list
  or a dictionary every string inside is looked at, which is at least what the driver
  types.
\<close>

fun has_prefix :: "string \<Rightarrow> string \<Rightarrow> bool" where
  "has_prefix [] s = True"
| "has_prefix (c # p) [] = False"
| "has_prefix (c # p) (d # s) = (c = d \<and> has_prefix p s)"

fun has_infix :: "string \<Rightarrow> string \<Rightarrow> bool" where
  "has_infix p [] = has_prefix p []"
| "has_infix p (d # s) = (has_prefix p (d # s) \<or> has_infix p s)"

fun holds_return :: "pyval \<Rightarrow> bool" where
  "holds_return (PStr s) = has_infix keys_return s"
| "holds_return (PList xs) = list_ex holds_return xs"
| "holds_return (PDict kvs) =
     list_ex (\<lambda>kv. has_infix keys_return (fst kv) \<or> holds_return (snd kv)) kvs"
| "holds_return v = False"

fun is_submit :: "event \<Rightarrow> bool" where
  "is_submit (Called (SendKeys element v) r) = holds_return v"
| "is_submit ev = False"

text \<open>
  The key events of one \<open>type_text\<close>, in order: none; or the text, whose \<open>send_keys\<close>
  raised; or the text alone, with \<open>enter_after\<close> false; or the text and then the
  submit key on the same element, with \<open>enter_after\<close> true.
\<close>

definition typed_keys :: "pyval \<Rightarrow> pyval \<Rightarrow> event list \<Rightarrow> bool" where
  "typed_keys txt enter_after ks =
     (ks = [] \<or>
      (\<exists>element e. ks = [Called (SendKeys element txt) (Inl e)]) \<or>
      (\<exists>element. ks = [Called (SendKeys element txt) (Inr RUnit)] \<and> \<not> truthy enter_after) \<or>
      (\<exists>element r'. ks = [Called (SendKeys element txt) (Inr RUnit),
                             Called (SendKeys element (PStr keys_return)) r']
         \<and> truthy enter_after))"

text \<open>The events end with the key events, and no key event stands before them.\<close>

definition keys_at_end :: "pyval \<Rightarrow> pyval \<Rightarrow> event list \<Rightarrow> bool" where
  "keys_at_end txt enter_after evs =
     (\<exists>before ks. evs = before @ ks \<and> no_keys before \<and> typed_keys txt enter_after ks)"

text \<open>A computation only appends to the trace, and what it appends satisfies \<open>P\<close>.\<close>

definition emits :: "('w, 'r) comp \<Rightarrow> (event list \<Rightarrow> bool) \<Rightarrow> bool" where
  "emits m P = (\<forall>a. \<exists>evs. trace (fst (m a)) = trace a @ evs \<and> P evs)"

text \<open>The actions that name an operation of the Action Library.\<close>

definition executable_actions :: "pyval set" where
  "executable_actions =
     {PStr ''navigate'', PStr ''type'', PStr ''click'', PStr ''wait'', PStr ''extract_text'',
      PStr ''scroll'', PStr ''ask_user''}"

section \<open>Unfolding the model\<close>

lemmas monad_defs = return_ex_def raise_ex_def bind_ex_def try_except_def lift_ex_def
  record_event_def entered_def on_driver_def on_object_def pause_def time_sleep_def store_set_def

lemmas call_defs = call_get_def call_until_ready_def call_execute_script_def call_is_displayed_def
  call_is_enabled_def call_clear_def call_send_keys_def call_click_def call_text_def
  call_get_attribute_def call_input_def

lemmas action_defs = navigate_def not_interactable_def inject_text_def type_text_def
  js_click_fallback_def click_handler_def click_element_def wait_def read_text_content_def
  stripped_or_empty_def extract_text_def scroll_and_settle_def scroll_window_def ask_user_def
  find_element_def find_clickable_element_def get_by_strategy_def py_lower_def strategies_def

lemmas plan_defs = dict_get_def dict_get_default_def subscript_def py_int_def as_result_def
  dispatch_def fault_message_def step_verdict_def execute_plan_def

lemmas double_defs = ascii_lower_def ascii_space_def ascii_strip_def digit_value_def
  ascii_int_of_str_def always_ok_def fresh_agent_def step_of_def

lemmas variant_defs = blank_element_def no_element_def blocked_click_def failing_keys_def

section \<open>The step loop\<close>

lemma step_verdict_fails: "step_verdict st r = Some v \<Longrightarrow> \<not> fst v"
  by (auto simp: step_verdict_def split: sum.splits dispatched.splits if_splits)

text \<open>
  Running a plan in two parts: the second part runs, from the state the first part
  left, exactly when the first part succeeded.
\<close>

lemma run_steps_append:
  "run_steps env i (pre @ rest) a =
     (case run_steps env i pre a of
        (a1, ok, m) \<Rightarrow> if ok then run_steps env (i + length pre) rest a1 else (a1, ok, m))"
proof (induction pre arbitrary: i a)
  case Nil
  show ?case by simp
next
  case (Cons st pre)
  obtain a' r where d: "dispatch env i st a = (a', r)" by (cases "dispatch env i st a")
  show ?case
  proof (cases "step_verdict st r")
    case None
    with d Cons.IH show ?thesis by (simp split: prod.splits)
  next
    case (Some v)
    with d step_verdict_fails [OF Some] show ?thesis by (cases v) simp
  qed
qed

lemma execute_plan_prefix:
  assumes "execute_plan env pre a = (a1, True, m0)"
  shows "execute_plan env (pre @ rest) a = run_steps env (length pre) rest a1"
proof -
  from assms have live: "driver_live a" and pre: "run_steps env 0 pre a = (a1, True, m0)"
    by (auto simp: execute_plan_def split: if_splits)
  have "run_steps env 0 (pre @ rest) a = run_steps env (length pre) rest a1"
    by (simp add: run_steps_append pre)
  with live show ?thesis by (simp add: execute_plan_def)
qed

lemma dispatch_error:
  "dict_get st ''action'' = PStr ''error'' \<Longrightarrow>
   dispatch env i st a = (a, Inr (PlanError (dict_get st ''message'')))"
  by (simp add: dispatch_def return_ex_def)

lemma wait_step_runs:
  "execute_plan always_ok [wait_step] fresh_agent =
     (fresh_agent\<lparr>trace := [Entered ''wait'' [PInt 0], Slept 0, Slept 1]\<rparr>, True, None)"
  by (simp add: monad_defs call_defs action_defs plan_defs double_defs wait_step_def)

text \<open>A plan whose first part fails gives the result of that part.\<close>

lemma execute_plan_failed_prefix:
  assumes "execute_plan env pre a = (a1, False, m)"
  shows "execute_plan env (pre @ rest) a = (a1, False, m)"
proof (cases "driver_live a")
  case False
  with assms show ?thesis by (simp add: execute_plan_def)
next
  case True
  with assms have "run_steps env 0 pre a = (a1, False, m)" by (simp add: execute_plan_def)
  then have "run_steps env 0 (pre @ rest) a = (a1, False, m)" by (simp add: run_steps_append)
  with True show ?thesis by (simp add: execute_plan_def)
qed

lemma execute_plan_at_error:
  assumes "execute_plan env pre a = (a1, True, m0)"
      and "dict_get st ''action'' = PStr ''error''"
  shows "execute_plan env (pre @ st # post) a =
           (a1, False, if dict_get st ''message'' = PNone then None
                       else Some (PlannerMessage (dict_get st ''message'')))"
proof -
  have "execute_plan env (pre @ st # post) a = run_steps env (length pre) (st # post) a1"
    by (rule execute_plan_prefix [OF assms(1)])
  also have "\<dots> = (a1, False, if dict_get st ''message'' = PNone then None
                       else Some (PlannerMessage (dict_get st ''message'')))"
    by (simp add: dispatch_error [OF assms(2)] step_verdict_def)
  finally show ?thesis .
qed


section \<open>Properties of the interpreter and of the Action Library\<close>

subsection \<open>The first failure stops the plan\<close>

text \<open>
  C1. Let the steps before position \<open>i\<close> of a plan have run with success, so that step
  \<open>i\<close> is dispatched, and let the operation dispatched for step \<open>i\<close> return \<open>False\<close>.
  Then \<open>execute_plan\<close> returns the verdict \<open>(False, m)\<close>, where \<open>m\<close> is the message
  \<open>Action '{action}' failed. Params: {step}.\<close> holding the action and the whole record
  of the failing step, and the agent it returns is the agent in which that operation
  returned: no step after \<open>i\<close> is dispatched, whatever the rest of the plan is, and
  the entries into operations counted in the trace are those made up to step \<open>i\<close>.
\<close>

theorem failure_stops_plan:
  assumes "execute_plan env pre a = (a1, True, m0)"
      and "dispatch env (length pre) st a1 = (a2, Inr (OpResult False))"
  shows "execute_plan env (pre @ st # post) a =
           (a2, False, Some (ActionFailed (dict_get st ''action'') st))
         \<and> filter is_entered (trace (fst (execute_plan env (pre @ st # post) a))) =
             filter is_entered (trace a2)"
proof -
  have "execute_plan env (pre @ st # post) a = run_steps env (length pre) (st # post) a1"
    by (rule execute_plan_prefix [OF assms(1)])
  also have "\<dots> = (a2, False, Some (ActionFailed (dict_get st ''action'') st))"
    using assms(2) by (simp add: step_verdict_def)
  finally show ?thesis by simp
qed

theorem failure_stops_plan_witness:
  "snd (execute_plan always_ok ([wait_step] @ sideways_step # [wait_step]) fresh_agent) =
     (False, Some (ActionFailed (PStr ''scroll'') sideways_step))
   \<and> trace (fst (execute_plan always_ok ([wait_step] @ sideways_step # [wait_step]) fresh_agent)) =
     [Entered ''wait'' [PInt 0], Slept 0, Slept 1, Entered ''scroll_window'' [PStr ''sideways'', PInt 0]]"
proof -
  let ?a1 = "fresh_agent\<lparr>trace := [Entered ''wait'' [PInt 0], Slept 0, Slept 1]\<rparr>"
  let ?a2 = "fresh_agent\<lparr>trace := [Entered ''wait'' [PInt 0], Slept 0, Slept 1,
      Entered ''scroll_window'' [PStr ''sideways'', PInt 0]]\<rparr>"
  have 2: "dispatch always_ok (length [wait_step]) sideways_step ?a1 = (?a2, Inr (OpResult False))"
    by (simp add: monad_defs call_defs action_defs plan_defs double_defs sideways_step_def)
  have 3: "dict_get sideways_step ''action'' = PStr ''scroll''"
    by (simp add: plan_defs double_defs sideways_step_def)
  show ?thesis
    using failure_stops_plan [OF wait_step_runs 2, of "[wait_step]"] 3 by (simp add: fresh_agent_def)
qed

subsection \<open>An error record stops the plan\<close>

text \<open>
  C2. Let the record at position \<open>i\<close> of a plan be an \<open>error\<close> record. Whatever the
  steps before it do, \<open>execute_plan\<close> returns a failure, and the agent it returns is
  the agent that running the steps before \<open>i\<close> alone returns: the error record is not
  executed as a browser action and no step after it runs. When the steps before \<open>i\<close>
  all succeed (which needs an initialised browser), the message is the value of the
  record's \<open>message\<close> as it stands (\<open>None\<close> when the record has none). When they do
  not, the whole result is the one the steps before \<open>i\<close> give: the run had stopped
  before the record.
\<close>

theorem error_record_aborts:
  assumes "dict_get st ''action'' = PStr ''error''"
  shows "fst (execute_plan env (pre @ st # post) a) = fst (execute_plan env pre a)
       \<and> \<not> fst (snd (execute_plan env (pre @ st # post) a))
       \<and> (fst (snd (execute_plan env pre a)) \<longrightarrow>
            snd (snd (execute_plan env (pre @ st # post) a)) =
              (if dict_get st ''message'' = PNone then None
               else Some (PlannerMessage (dict_get st ''message''))))
       \<and> (\<not> fst (snd (execute_plan env pre a)) \<longrightarrow>
            execute_plan env (pre @ st # post) a = execute_plan env pre a)"
proof -
  obtain a1 ok m where p: "execute_plan env pre a = (a1, ok, m)"
    by (cases "execute_plan env pre a") auto
  show ?thesis
  proof (cases ok)
    case True
    with p execute_plan_at_error [OF _ assms, of env pre a a1 m post] show ?thesis by simp
  next
    case False
    with p execute_plan_failed_prefix [of env pre a a1 m "st # post"] show ?thesis by simp
  qed
qed

theorem error_record_aborts_witness:
  "execute_plan always_ok ([wait_step] @ error_step # [wait_step]) fresh_agent =
     (fresh_agent\<lparr>trace := [Entered ''wait'' [PInt 0], Slept 0, Slept 1]\<rparr>,
      False, Some (PlannerMessage (PStr ''cannot plan this'')))
   \<and> execute_plan always_ok ([sideways_step] @ error_step # [wait_step]) fresh_agent =
       execute_plan always_ok [sideways_step] fresh_agent"
proof -
  have 2: "dict_get error_step ''action'' = PStr ''error''"
    by (simp add: plan_defs double_defs error_step_def)
  have 3: "dict_get error_step ''message'' = PStr ''cannot plan this''"
    by (simp add: plan_defs double_defs error_step_def)
  have 4: "\<not> fst (snd (execute_plan always_ok [sideways_step] fresh_agent))"
    by (simp add: monad_defs call_defs action_defs plan_defs double_defs sideways_step_def)
  from error_record_aborts [OF 2, of always_ok "[wait_step]" "[wait_step]" fresh_agent]
    wait_step_runs 3
  have "execute_plan always_ok ([wait_step] @ error_step # [wait_step]) fresh_agent =
     (fresh_agent\<lparr>trace := [Entered ''wait'' [PInt 0], Slept 0, Slept 1]\<rparr>,
      False, Some (PlannerMessage (PStr ''cannot plan this'')))"
    by (cases "execute_plan always_ok ([wait_step] @ error_step # [wait_step]) fresh_agent") auto
  moreover from error_record_aborts [OF 2, of always_ok "[sideways_step]" "[wait_step]" fresh_agent] 4
  have "execute_plan always_ok ([sideways_step] @ error_step # [wait_step]) fresh_agent =
       execute_plan always_ok [sideways_step] fresh_agent"
    by blast
  ultimately show ?thesis by blast
qed

text \<open>
  The plan \<open>[scroll sideways, error]\<close> holds an error record at position 1, and the
  verdict carries the failure of step 0, not the record's message.
\<close>

theorem error_record_counterexample:
  "dict_get ([sideways_step, error_step] ! 1) ''action'' = PStr ''error''
   \<and> dict_get ([sideways_step, error_step] ! 1) ''message'' = PStr ''cannot plan this''
   \<and> snd (execute_plan always_ok [sideways_step, error_step] fresh_agent) =
       (False, Some (ActionFailed (PStr ''scroll'') sideways_step))"
  by (simp add: monad_defs call_defs action_defs plan_defs double_defs error_step_def sideways_step_def)

subsection \<open>What \<open>extract_text\<close> stores\<close>

text \<open>
  C3. Take a call of \<open>extract_text\<close> with a live driver, a supported selector type and
  a hashable variable name. If the presence wait returns an element whose visible text,
  value attribute and inner-text attribute read as \<open>visible\<close>, \<open>value_attr\<close> and
  \<open>inner_text\<close>, the call returns \<open>True\<close> and the store maps the name to the string the
  specification describes: the stripped first non-empty of the three in that order,
  which is the empty string when all three are empty. If the presence wait raises, the
  call returns \<open>False\<close> and the store maps the name to \<open>None\<close>, which is not the empty
  string. No other name changes.
\<close>

theorem extract_text_contract:
  assumes "driver_live a" and "key_of variable_name = Some k"
      and "get_by_strategy env selector_type = Inr strategy"
  shows "(\<forall>w1 element w2 visible w3 value_attr w4 inner_text.
            drv_until_present env (world a) 10 strategy selector_value = (w1, Inr element) \<longrightarrow>
            el_text env w1 element = (w2, Inr visible) \<longrightarrow>
            el_get_attribute env w2 element ''value'' = (w3, Inr value_attr) \<longrightarrow>
            el_get_attribute env w3 element ''innerText'' = (w4, Inr inner_text) \<longrightarrow>
              snd (extract_text env selector_type selector_value variable_name a) = Inr True \<and>
              extracted_data (fst (extract_text env selector_type selector_value variable_name a)) =
                (extracted_data a)(k \<mapsto> PStr (spec_extracted env visible value_attr inner_text)) \<and>
              (visible = [] \<and> value_attr \<in> {None, Some []} \<and> inner_text \<in> {None, Some []} \<longrightarrow>
                 spec_extracted env visible value_attr inner_text = []))
       \<and> (\<forall>w1 e.
            drv_until_present env (world a) 10 strategy selector_value = (w1, Inl e) \<longrightarrow>
              snd (extract_text env selector_type selector_value variable_name a) = Inr False \<and>
              extracted_data (fst (extract_text env selector_type selector_value variable_name a)) =
                (extracted_data a)(k \<mapsto> PNone) \<and> PNone \<noteq> PStr [])"
  using assms
  by (auto simp: extract_text_def find_element_def read_text_content_def stripped_or_empty_def
        spec_extracted_def call_text_def call_get_attribute_def monad_defs
        split: list.splits option.splits)

theorem extract_text_contract_witness:
  "snd (extract_text blank_element (PStr ''xpath'') (PStr ''//h1'') (PStr ''title'') fresh_agent) = Inr True
   \<and> extracted_data (fst (extract_text blank_element (PStr ''xpath'') (PStr ''//h1'') (PStr ''title'')
        fresh_agent)) (KStr ''title'') = Some (PStr [])
   \<and> snd (extract_text no_element (PStr ''xpath'') (PStr ''//h1'') (PStr ''title'') fresh_agent) = Inr False
   \<and> extracted_data (fst (extract_text no_element (PStr ''xpath'') (PStr ''//h1'') (PStr ''title'')
        fresh_agent)) (KStr ''title'') = Some PNone"
proof -
  have live: "driver_live fresh_agent" by (simp add: fresh_agent_def)
  have k: "key_of (PStr ''title'') = Some (KStr ''title'')" by simp
  have s1: "get_by_strategy blank_element (PStr ''xpath'') = Inr XPATH"
    by (simp add: action_defs double_defs variant_defs)
  have s2: "get_by_strategy no_element (PStr ''xpath'') = Inr XPATH"
    by (simp add: action_defs double_defs variant_defs)
  have p: "drv_until_present blank_element (world fresh_agent) 10 XPATH (PStr ''//h1'') = ((), Inr 7)"
    "el_text blank_element () 7 = ((), Inr [])"
    "el_get_attribute blank_element () 7 ''value'' = ((), Inr (Some []))"
    "el_get_attribute blank_element () 7 ''innerText'' = ((), Inr None)"
    by (simp_all add: double_defs variant_defs)
  have q: "drv_until_present no_element (world fresh_agent) 10 XPATH (PStr ''//h1'') = ((), Inl TimeoutException)"
    by (simp add: double_defs variant_defs)
  have e: "spec_extracted blank_element [] (Some []) None = []"
    by (simp add: spec_extracted_def)
  from extract_text_contract [OF live k s1, of "PStr ''//h1''"] p e
  have "snd (extract_text blank_element (PStr ''xpath'') (PStr ''//h1'') (PStr ''title'') fresh_agent) = Inr True
     \<and> extracted_data (fst (extract_text blank_element (PStr ''xpath'') (PStr ''//h1'') (PStr ''title'')
        fresh_agent)) (KStr ''title'') = Some (PStr [])"
    by (metis fun_upd_same)
  moreover from extract_text_contract [OF live k s2, of "PStr ''//h1''"] q
  have "snd (extract_text no_element (PStr ''xpath'') (PStr ''//h1'') (PStr ''title'') fresh_agent) = Inr False
     \<and> extracted_data (fst (extract_text no_element (PStr ''xpath'') (PStr ''//h1'') (PStr ''title'')
        fresh_agent)) (KStr ''title'') = Some PNone"
    by (metis fun_upd_same)
  ultimately show ?thesis by simp
qed

subsection \<open>The fallback of \<open>click_element\<close>\<close>

text \<open>
  C4. Take a call of \<open>click_element\<close> that found a clickable element and scrolled to
  it (a failed scroll is ignored); \<open>before\<close> is the trace up to there. If the native
  click raises \<open>ElementNotInteractableException\<close>, one fallback follows and nothing
  else: one presence wait for the same selector and, when it returns an element, one
  scripted click on the element it returned. The call returns \<open>True\<close> exactly when the
  presence wait returned an element and the scripted click did not raise. If the native
  click raises \<open>StaleElementReferenceException\<close>, the call returns \<open>False\<close> and the click
  is the last event: no fallback is attempted.
\<close>

theorem click_fallback:
  assumes "driver_live a"
      and "get_by_strategy env selector_type = Inr strategy"
      and "drv_until_clickable env (world a) 10 strategy selector_value = (w1, Inr element)"
      and "drv_execute_script env w1 (ScrollIntoViewSmooth element) = (w2, scrolled)"
      and "w3 = (case scrolled of Inl e \<Rightarrow> w2 | Inr u \<Rightarrow> elapse env w2 (1 / 2))"
      and "before = trace a @
             [Entered ''click_element'' [selector_type, selector_value],
              Called (UntilClickable 10 strategy selector_value) (Inr (RElem element)),
              Called (ExecuteScript (ScrollIntoViewSmooth element)) (map_sum id (\<lambda>u. RUnit) scrolled)]
             @ (case scrolled of Inl e \<Rightarrow> [] | Inr u \<Rightarrow> [Slept (1 / 2)])"
  shows "(\<forall>w4 m w5 e.
            el_click env w3 element = (w4, Inl (ElementNotInteractableException m)) \<longrightarrow>
            drv_until_present env w4 10 strategy selector_value = (w5, Inl e) \<longrightarrow>
              click_element env selector_type selector_value a =
                (a\<lparr>world := w5,
                   trace := before @
                     [Called (Click element) (Inl (ElementNotInteractableException m)),
                      Called (UntilPresent 10 strategy selector_value) (Inl e)]\<rparr>,
                 Inr False))
       \<and> (\<forall>w4 m w5 element_to_js_click w6 clicked.
            el_click env w3 element = (w4, Inl (ElementNotInteractableException m)) \<longrightarrow>
            drv_until_present env w4 10 strategy selector_value = (w5, Inr element_to_js_click) \<longrightarrow>
            drv_execute_script env w5 (JsClick element_to_js_click) = (w6, clicked) \<longrightarrow>
              click_element env selector_type selector_value a =
                (a\<lparr>world := w6,
                   trace := before @
                     [Called (Click element) (Inl (ElementNotInteractableException m)),
                      Called (UntilPresent 10 strategy selector_value) (Inr (RElem element_to_js_click)),
                      Called (ExecuteScript (JsClick element_to_js_click)) (map_sum id (\<lambda>u. RUnit) clicked)]\<rparr>,
                 Inr (clicked = Inr ())))
       \<and> (\<forall>w4.
            el_click env w3 element = (w4, Inl StaleElementReferenceException) \<longrightarrow>
              click_element env selector_type selector_value a =
                (a\<lparr>world := w4,
                   trace := before @ [Called (Click element) (Inl StaleElementReferenceException)]\<rparr>,
                 Inr False))"
  using assms
  by (cases scrolled)
     (auto simp: click_element_def click_handler_def js_click_fallback_def find_element_def
        find_clickable_element_def call_execute_script_def call_click_def monad_defs
        split: sum.splits)

theorem click_fallback_witness:
  "click_element blocked_click (PStr ''css'') (PStr ''#go'') fresh_agent =
     (fresh_agent\<lparr>trace :=
        [Entered ''click_element'' [PStr ''css'', PStr ''#go''],
         Called (UntilClickable 10 CSS_SELECTOR (PStr ''#go'')) (Inr (RElem 7)),
         Called (ExecuteScript (ScrollIntoViewSmooth 7)) (Inr RUnit),
         Slept (1 / 2),
         Called (Click 7) (Inl (ElementNotInteractableException ''element not interactable'')),
         Called (UntilPresent 10 CSS_SELECTOR (PStr ''#go'')) (Inr (RElem 7)),
         Called (ExecuteScript (JsClick 7)) (Inr RUnit)]\<rparr>,
      Inr True)"
proof -
  have live: "driver_live fresh_agent" by (simp add: fresh_agent_def)
  have s: "get_by_strategy blocked_click (PStr ''css'') = Inr CSS_SELECTOR"
    by (simp add: action_defs double_defs variant_defs)
  have c: "drv_until_clickable blocked_click (world fresh_agent) 10 CSS_SELECTOR (PStr ''#go'') = ((), Inr 7)"
    by (simp add: double_defs variant_defs)
  have sc: "drv_execute_script blocked_click () (ScrollIntoViewSmooth 7) = ((), Inr ())"
    by (simp add: double_defs variant_defs)
  have w3: "() = (case (Inr () :: exn + unit) of Inl e \<Rightarrow> () | Inr u \<Rightarrow> elapse blocked_click () (1 / 2))"
    by simp
  have cl: "el_click blocked_click () 7 = ((), Inl (ElementNotInteractableException ''element not interactable''))"
    by (simp add: double_defs variant_defs)
  have pr: "drv_until_present blocked_click () 10 CSS_SELECTOR (PStr ''#go'') = ((), Inr 7)"
    by (simp add: double_defs variant_defs)
  have js: "drv_execute_script blocked_click () (JsClick 7) = ((), Inr ())"
    by (simp add: double_defs variant_defs)
  from click_fallback [OF live s c sc w3 refl] cl pr js
  have "click_element blocked_click (PStr ''css'') (PStr ''#go'') fresh_agent =
     (fresh_agent\<lparr>world := (), trace := (trace fresh_agent @
        [Entered ''click_element'' [PStr ''css'', PStr ''#go''],
         Called (UntilClickable 10 CSS_SELECTOR (PStr ''#go'')) (Inr (RElem 7)),
         Called (ExecuteScript (ScrollIntoViewSmooth 7)) (map_sum id (\<lambda>u. RUnit) (Inr ()))]
         @ (case (Inr () :: exn + unit) of Inl e \<Rightarrow> [] | Inr u \<Rightarrow> [Slept (1 / 2)])) @
        [Called (Click 7) (Inl (ElementNotInteractableException ''element not interactable'')),
         Called (UntilPresent 10 CSS_SELECTOR (PStr ''#go'')) (Inr (RElem 7)),
         Called (ExecuteScript (JsClick 7)) (map_sum id (\<lambda>u. RUnit) (Inr ()))]\<rparr>,
      Inr ((Inr () :: exn + unit) = Inr ()))"
    by blast
  then show ?thesis by (simp add: fresh_agent_def)
qed

subsection \<open>A plan whose steps all succeed\<close>

lemma run_steps_success_iff:
  "(snd (run_steps env i plan a) = (True, None)) = every_step_succeeds env i plan a"
proof (induction plan arbitrary: i a)
  case Nil
  show ?case by simp
next
  case (Cons st plan)
  obtain a1 r where d: "dispatch env i st a = (a1, r)" by (cases "dispatch env i st a")
  show ?case
  proof (cases "step_verdict st r")
    case None
    then have "r = Inr (OpResult True)"
      by (auto simp: step_verdict_def split: sum.splits dispatched.splits if_splits)
    with d None Cons.IH show ?thesis by simp
  next
    case (Some v)
    then have "r \<noteq> Inr (OpResult True)" by (auto simp: step_verdict_def)
    moreover from Some have "\<not> fst v" by (rule step_verdict_fails)
    ultimately show ?thesis using d Some by (cases v) auto
  qed
qed

lemma dispatch_result_action:
  assumes "dispatch env i st a = (a', Inr (OpResult b))"
  shows "dict_get st ''action'' \<in> executable_actions"
proof (rule ccontr)
  assume n: "dict_get st ''action'' \<notin> executable_actions"
  then have "dispatch env i st a =
      (if dict_get st ''action'' = PStr ''error'' then return_ex (PlanError (dict_get st ''message''))
       else return_ex (UnknownAction (dict_get st ''action''))) a"
    by (simp add: dispatch_def executable_actions_def Let_def)
  with assms show False by (simp add: return_ex_def split: if_splits)
qed

lemma every_step_succeeds_actions:
  "every_step_succeeds env i plan a \<Longrightarrow> \<forall>st \<in> set plan. dict_get st ''action'' \<in> executable_actions"
proof (induction plan arbitrary: i a)
  case Nil
  show ?case by simp
next
  case (Cons st plan)
  obtain a1 r where d: "dispatch env i st a = (a1, r)" by (cases "dispatch env i st a")
  with Cons.prems have r: "r = Inr (OpResult True)"
    and rest: "every_step_succeeds env (Suc i) plan (fst (pause env 1 a1))" by auto
  from d r have "dict_get st ''action'' \<in> executable_actions" by (auto dest: dispatch_result_action)
  with Cons.IH [OF rest] show ?case by simp
qed

text \<open>
  C5. \<open>execute_plan\<close> returns the verdict \<open>(True, None)\<close> exactly when the browser is
  initialised and every step of the plan is dispatched to its operation and the
  operation returns \<open>True\<close>; the empty plan is such a plan. In such a plan every action
  is one of the seven that name an operation, so it holds no \<open>error\<close> record and no
  unknown action.
\<close>

theorem all_steps_succeed_verdict:
  "(snd (execute_plan env plan a) = (True, None)) =
     (driver_live a \<and> every_step_succeeds env 0 plan a)
   \<and> (every_step_succeeds env 0 plan a \<longrightarrow>
        (\<forall>st \<in> set plan. dict_get st ''action'' \<in> executable_actions))"
  by (auto simp: execute_plan_def run_steps_success_iff dest: every_step_succeeds_actions)

theorem all_steps_succeed_verdict_witness:
  "driver_live fresh_agent
   \<and> every_step_succeeds always_ok 0 [wait_step, wait_step] fresh_agent
   \<and> snd (execute_plan always_ok [wait_step, wait_step] fresh_agent) = (True, None)
   \<and> snd (execute_plan always_ok [] fresh_agent) = (True, None)"
proof -
  have 1: "driver_live fresh_agent" by (simp add: fresh_agent_def)
  have 2: "snd (execute_plan always_ok [wait_step, wait_step] fresh_agent) = (True, None)"
    by (simp add: monad_defs call_defs action_defs plan_defs double_defs wait_step_def)
  from all_steps_succeed_verdict [of always_ok "[wait_step, wait_step]" fresh_agent] 2
    all_steps_succeed_verdict [of always_ok "[]" fresh_agent] 1
  show ?thesis by simp
qed

text \<open>
  The plan \<open>[{action: click}]\<close> on a live browser: the action is a known one, no
  operation of the Action Library is entered, so none fails, and the verdict is a
  failure for the missing parameter.
\<close>

theorem all_steps_succeed_counterexample:
  "driver_live fresh_agent
   \<and> dict_get bare_click_step ''action'' = PStr ''click''
   \<and> filter is_entered (trace (fst (execute_plan always_ok [bare_click_step] fresh_agent))) = []
   \<and> snd (execute_plan always_ok [bare_click_step] fresh_agent) =
       (False, Some (MissingParameter (PStr ''click'') (KeyError ''selector_type'')))"
  by (simp add: monad_defs call_defs action_defs plan_defs double_defs bare_click_step_def)

subsection \<open>The seconds of a \<open>wait\<close>\<close>







subsection \<open>A direction that \<open>scroll_window\<close> does not know\<close>

text \<open>
  C7. When the direction is not a string, or its lower-case form is none of \<open>down\<close>,
  \<open>up\<close>, \<open>to_bottom\<close> and \<open>to_top\<close>, \<open>scroll_window\<close> returns \<open>False\<close> as a value (no
  exception leaves it), and the agent differs from the one it was called on only by the
  entry in the trace: the store and the browser are as before. The comparison is on the
  lower-case form, so \<open>DOWN\<close> is a known direction.
\<close>

theorem scroll_unrecognised:
  assumes "\<forall>d. py_lower env direction = Inr d \<longrightarrow> d \<notin> {''down'', ''up'', ''to_bottom'', ''to_top''}"
  shows "scroll_window env direction pixels a =
           (a\<lparr>trace := trace a @ [Entered ''scroll_window'' [direction, PInt pixels]]\<rparr>, Inr False)
         \<and> extracted_data (fst (scroll_window env direction pixels a)) = extracted_data a"
proof (cases "py_lower env direction")
  case (Inl e)
  then show ?thesis by (simp add: scroll_window_def monad_defs)
next
  case (Inr d)
  with assms have "d \<noteq> ''down''" "d \<noteq> ''up''" "d \<noteq> ''to_bottom''" "d \<noteq> ''to_top''" by auto
  with Inr show ?thesis by (simp add: scroll_window_def monad_defs)
qed

theorem scroll_unrecognised_witness:
  "scroll_window always_ok (PStr ''sideways'') 0 fresh_agent =
     (fresh_agent\<lparr>trace := [Entered ''scroll_window'' [PStr ''sideways'', PInt 0]]\<rparr>, Inr False)
   \<and> extracted_data (fst (scroll_window always_ok (PStr ''sideways'') 0 fresh_agent)) =
       extracted_data fresh_agent"
proof -
  have "\<forall>d. py_lower always_ok (PStr ''sideways'') = Inr d \<longrightarrow>
          d \<notin> {''down'', ''up'', ''to_bottom'', ''to_top''}"
    by (simp add: py_lower_def double_defs)
  from scroll_unrecognised [OF this, of 0 fresh_agent] show ?thesis
    by (simp add: fresh_agent_def)
qed

text \<open>\<open>scroll_window("DOWN", 0)\<close> scrolls one viewport and returns \<open>True\<close>.\<close>

theorem scroll_counterexample:
  "''DOWN'' \<notin> {''down'', ''up'', ''to_bottom'', ''to_top''}
   \<and> scroll_window always_ok (PStr ''DOWN'') 0 fresh_agent =
       (fresh_agent\<lparr>trace := [Entered ''scroll_window'' [PStr ''DOWN'', PInt 0],
          Called (ExecuteScript (ScrollByDown InnerHeight)) (Inr RUnit), Slept (1 / 2)]\<rparr>, Inr True)"
  by (simp add: monad_defs call_defs action_defs plan_defs double_defs)

subsection \<open>The submit key of \<open>type_text\<close>\<close>

lemma no_keys_append: "no_keys xs \<Longrightarrow> no_keys ys \<Longrightarrow> no_keys (xs @ ys)"
  by (simp add: no_keys_def)

lemma no_keys_at_end: "no_keys evs \<Longrightarrow> keys_at_end txt enter_after evs"
  unfolding keys_at_end_def typed_keys_def by (rule exI [of _ evs], rule exI [of _ "[]"]) simp

lemma keys_at_end_append:
  assumes "no_keys xs" and "keys_at_end txt enter_after ys"
  shows "keys_at_end txt enter_after (xs @ ys)"
proof -
  from assms(2) obtain before ks where
    ys: "ys = before @ ks" and b: "no_keys before" and k: "typed_keys txt enter_after ks"
    unfolding keys_at_end_def by blast
  have "xs @ ys = (xs @ before) @ ks" by (simp add: ys)
  moreover have "no_keys (xs @ before)" using assms(1) b by (rule no_keys_append)
  ultimately show ?thesis using k unfolding keys_at_end_def by blast
qed

lemma emits_bind:
  assumes "emits m P" and "\<And>x. emits (f x) Q"
      and "\<And>xs. P xs \<Longrightarrow> R xs" and "\<And>xs ys. P xs \<Longrightarrow> Q ys \<Longrightarrow> R (xs @ ys)"
  shows "emits (bind_ex m f) R"
  unfolding emits_def
proof
  fix a
  from assms(1) obtain xs where xs: "trace (fst (m a)) = trace a @ xs" "P xs"
    unfolding emits_def by blast
  obtain a1 r where m: "m a = (a1, r)" by (cases "m a")
  show "\<exists>evs. trace (fst (bind_ex m f a)) = trace a @ evs \<and> R evs"
  proof (cases r)
    case (Inl e)
    with m xs assms(3) show ?thesis by (auto simp: bind_ex_def)
  next
    case (Inr x)
    from assms(2) obtain ys where ys: "trace (fst (f x a1)) = trace a1 @ ys" "Q ys"
      unfolding emits_def by blast
    with Inr m xs assms(4) [OF xs(2) ys(2)] show ?thesis by (auto simp: bind_ex_def)
  qed
qed

lemma emits_try_return:
  assumes "emits m P"
  shows "emits (try_except m (\<lambda>e. return_ex x)) P"
  unfolding emits_def
proof
  fix a
  from assms obtain xs where xs: "trace (fst (m a)) = trace a @ xs" "P xs"
    unfolding emits_def by blast
  then show "\<exists>evs. trace (fst (try_except m (\<lambda>e. return_ex x) a)) = trace a @ evs \<and> P evs"
    by (cases "m a") (auto simp: try_except_def return_ex_def split: sum.splits)
qed

lemma emits_no_keys_bind:
  "emits m no_keys \<Longrightarrow> (\<And>x. emits (f x) no_keys) \<Longrightarrow> emits (bind_ex m f) no_keys"
  by (rule emits_bind [where P = no_keys and Q = no_keys]) (auto intro: no_keys_append)

lemma emits_then_keys:
  "emits m no_keys \<Longrightarrow> (\<And>x. emits (f x) (keys_at_end txt enter_after)) \<Longrightarrow>
   emits (bind_ex m f) (keys_at_end txt enter_after)"
  by (rule emits_bind [where P = no_keys and Q = "keys_at_end txt enter_after"])
     (auto intro: no_keys_at_end keys_at_end_append)

lemma find_element_no_keys: "emits (find_element env selector_type selector_value) no_keys"
  by (auto simp: emits_def no_keys_def find_element_def monad_defs split: sum.splits prod.splits)

lemma not_interactable_no_keys: "emits (not_interactable env element) no_keys"
  by (auto simp: emits_def no_keys_def not_interactable_def call_is_displayed_def
        call_is_enabled_def monad_defs split: sum.splits prod.splits)

lemma scroll_recheck_no_keys:
  "emits (bind_ex (call_execute_script env (ScrollIntoViewTrue element)) (\<lambda>_.
          bind_ex (pause env (1 / 2)) (\<lambda>_.
          bind_ex (not_interactable env element) (\<lambda>still_blocked.
          if still_blocked then
            raise_ex (ElementNotInteractableException ''Element still not interactable after scroll'')
          else return_ex ())))) no_keys"
proof (intro emits_no_keys_bind not_interactable_no_keys)
  show "emits (call_execute_script env (ScrollIntoViewTrue element)) no_keys"
    by (auto simp: emits_def no_keys_def call_execute_script_def monad_defs split: prod.splits)
  show "emits (pause env (1 / 2)) no_keys"
    by (auto simp: emits_def no_keys_def monad_defs)
  show "\<And>x. emits (if x then raise_ex (ElementNotInteractableException ''Element still not interactable after scroll'')
          else (return_ex () :: ('a, unit) comp)) no_keys"
    by (auto simp: emits_def no_keys_def monad_defs)
qed

lemma inject_text_events:
  "emits (inject_text (env :: 'w env) element txt enter_after) (keys_at_end txt enter_after)"
  unfolding emits_def
proof
  fix a :: "'w agent"
  obtain w1 c where c: "el_clear env (world a) element = (w1, c)"
    by (cases "el_clear env (world a) element")
  obtain w2 t where t: "el_send_keys env w1 element txt = (w2, t)"
    by (cases "el_send_keys env w1 element txt")
  obtain w3 r' where r: "el_send_keys env w2 element (PStr keys_return) = (w3, r')"
    by (cases "el_send_keys env w2 element (PStr keys_return)")
  let ?clear = "Called (Clear element) (map_sum id (\<lambda>_. RUnit) c)"
  have nk: "no_keys [?clear]" by (simp add: no_keys_def)
  have "\<exists>ks. trace (fst (inject_text env element txt enter_after a)) = trace a @ [?clear] @ ks
          \<and> typed_keys txt enter_after ks"
  proof (cases c)
    case (Inl e)
    with c show ?thesis
      by (simp add: inject_text_def call_clear_def monad_defs typed_keys_def)
  next
    case cr: (Inr u)
    show ?thesis
    proof (cases t)
      case (Inl e)
      with c cr t show ?thesis
        by (simp add: inject_text_def call_clear_def call_send_keys_def monad_defs typed_keys_def)
    next
      case tr: (Inr u')
      show ?thesis
      proof (cases "truthy enter_after")
        case False
        with c cr t tr show ?thesis
          by (simp add: inject_text_def call_clear_def call_send_keys_def monad_defs typed_keys_def)
      next
        case True
        with c cr t tr r show ?thesis
          by (cases r')
             (simp_all add: inject_text_def call_clear_def call_send_keys_def monad_defs typed_keys_def)
      qed
    qed
  qed
  then obtain ks where "trace (fst (inject_text env element txt enter_after a)) = trace a @ [?clear] @ ks"
    and "typed_keys txt enter_after ks" by blast
  with nk show "\<exists>evs. trace (fst (inject_text env element txt enter_after a)) = trace a @ evs \<and>
          keys_at_end txt enter_after evs"
    unfolding keys_at_end_def by blast
qed

lemma type_text_events:
  "emits (type_text env selector_type selector_value txt enter_after)
     (keys_at_end txt enter_after)"
  unfolding type_text_def
proof (rule emits_then_keys)
  show "emits (entered ''type_text'' [selector_type, selector_value, txt, enter_after]) no_keys"
    by (auto simp: emits_def no_keys_def monad_defs)
next
  fix u :: unit
  show "emits (try_except
          (bind_ex (find_element env selector_type selector_value) (\<lambda>element.
           bind_ex (not_interactable env element) (\<lambda>blocked.
           bind_ex
             (if blocked then
                bind_ex (call_execute_script env (ScrollIntoViewTrue element)) (\<lambda>_.
                bind_ex (pause env (1 / 2)) (\<lambda>_.
                bind_ex (not_interactable env element) (\<lambda>still_blocked.
                if still_blocked then
                  raise_ex (ElementNotInteractableException ''Element still not interactable after scroll'')
                else return_ex ())))
              else return_ex ()) (\<lambda>_.
           inject_text env element txt enter_after))))
          (\<lambda>e. return_ex False)) (keys_at_end txt enter_after)"
  proof (intro emits_try_return emits_then_keys find_element_no_keys not_interactable_no_keys
      inject_text_events)
    fix element blocked
    show "emits
       (if blocked then
          bind_ex (call_execute_script env (ScrollIntoViewTrue element)) (\<lambda>_.
          bind_ex (pause env (1 / 2)) (\<lambda>_.
          bind_ex (not_interactable env element) (\<lambda>still_blocked.
          if still_blocked then
            raise_ex (ElementNotInteractableException ''Element still not interactable after scroll'')
          else return_ex ())))
        else return_ex ()) no_keys"
      using scroll_recheck_no_keys [of env element]
      by (auto simp: emits_def no_keys_def return_ex_def)
  qed
qed

lemma is_submit_is_keys: "is_submit ev \<Longrightarrow> is_keys ev"
  by (cases ev rule: is_submit.cases) auto

lemma no_keys_no_submit: "no_keys evs \<Longrightarrow> filter is_submit evs = []"
  by (auto simp: no_keys_def filter_empty_conv dest: is_submit_is_keys)

lemma holds_return_keys_return: "holds_return (PStr keys_return)"
  by (simp add: keys_return_def)

text \<open>
  C8. The events one call of \<open>type_text\<close> adds to the trace end with its calls of
  \<open>send_keys\<close>, and there are no others. These calls are: none, when the injection is
  not reached; the text alone, when its \<open>send_keys\<close> raises or \<open>enter_after\<close> is
  false; the text and then \<open>Keys.RETURN\<close> on the same element, when the \<open>send_keys\<close>
  of the text returned and \<open>enter_after\<close> is true. So, for a text that does not itself
  hold the \<open>RETURN\<close> key: with \<open>enter_after\<close> false no submit key is injected; with
  \<open>enter_after\<close> true exactly one is injected when the text went in, and none when
  the \<open>send_keys\<close> of the text did not return.
\<close>

theorem submit_keystroke:
  assumes "type_text env selector_type selector_value txt enter_after a = (a', r)"
  shows "(\<exists>before ks. new_events a a' = before @ ks \<and> filter is_keys before = [] \<and>
            (ks = [] \<or>
             (\<exists>element e. ks = [Called (SendKeys element txt) (Inl e)]) \<or>
             (\<exists>element. ks = [Called (SendKeys element txt) (Inr RUnit)] \<and> \<not> truthy enter_after) \<or>
             (\<exists>element r'. ks = [Called (SendKeys element txt) (Inr RUnit),
                                    Called (SendKeys element (PStr keys_return)) r']
                \<and> truthy enter_after)))
       \<and> (\<not> truthy enter_after \<and> \<not> holds_return txt \<longrightarrow> filter is_submit (new_events a a') = [])
       \<and> (truthy enter_after \<and> \<not> holds_return txt \<longrightarrow>
            length (filter is_submit (new_events a a')) =
              (if \<exists>element. Called (SendKeys element txt) (Inr RUnit) \<in> set (new_events a a')
               then 1 else 0))"
proof -
  from type_text_events [of env selector_type selector_value "txt" enter_after]
  obtain evs where "trace (fst (type_text env selector_type selector_value txt enter_after a)) = trace a @ evs"
    and "keys_at_end txt enter_after evs"
    unfolding emits_def by blast
  with assms have ne: "new_events a a' = evs" by (simp add: new_events_def)
  from \<open>keys_at_end txt enter_after evs\<close> obtain before ks where
    evs: "evs = before @ ks" and b: "no_keys before" and k: "typed_keys txt enter_after ks"
    unfolding keys_at_end_def by blast
  have nb: "filter is_submit before = []" using b by (rule no_keys_no_submit)
  have mb: "\<And>element res. Called (SendKeys element txt) res \<notin> set before"
    using b by (auto simp: no_keys_def filter_empty_conv)
  have 1: "\<exists>before ks. new_events a a' = before @ ks \<and> filter is_keys before = [] \<and>
            (ks = [] \<or>
             (\<exists>element e. ks = [Called (SendKeys element txt) (Inl e)]) \<or>
             (\<exists>element. ks = [Called (SendKeys element txt) (Inr RUnit)] \<and> \<not> truthy enter_after) \<or>
             (\<exists>element r'. ks = [Called (SendKeys element txt) (Inr RUnit),
                                    Called (SendKeys element (PStr keys_return)) r']
                \<and> truthy enter_after))"
    using ne evs b k unfolding typed_keys_def no_keys_def by blast
  have 2: "\<not> truthy enter_after \<and> \<not> holds_return txt \<longrightarrow> filter is_submit (new_events a a') = []"
    using ne evs nb k unfolding typed_keys_def by auto
  have 3: "truthy enter_after \<and> \<not> holds_return txt \<longrightarrow>
            length (filter is_submit (new_events a a')) =
              (if \<exists>element. Called (SendKeys element txt) (Inr RUnit) \<in> set (new_events a a')
               then 1 else 0)"
    using ne evs nb mb k holds_return_keys_return unfolding typed_keys_def by auto
  from 1 2 3 show ?thesis by blast
qed

theorem submit_keystroke_witness:
  "filter is_submit (new_events fresh_agent
      (fst (type_text always_ok (PStr ''name'') (PStr ''q'') (PStr ''hello'') (PBool False) fresh_agent))) = []
   \<and> length (filter is_submit (new_events fresh_agent
      (fst (type_text always_ok (PStr ''name'') (PStr ''q'') (PStr ''hello'') (PBool True) fresh_agent)))) = 1
   \<and> length (filter is_submit (new_events fresh_agent
      (fst (type_text failing_keys (PStr ''name'') (PStr ''q'') (PStr ''hello'') (PBool True) fresh_agent)))) = 0"
proof -
  have h: "\<not> holds_return (PStr ''hello'')" by (simp add: keys_return_def)
  have f: "\<not> truthy (PBool False)" and t: "truthy (PBool True)" by simp_all
  have m: "\<exists>element. Called (SendKeys element (PStr ''hello'')) (Inr RUnit) \<in> set (new_events fresh_agent
         (fst (type_text always_ok (PStr ''name'') (PStr ''q'') (PStr ''hello'') (PBool True) fresh_agent)))"
    by (auto simp: monad_defs call_defs action_defs double_defs new_events_def)
  have n: "\<not> (\<exists>element. Called (SendKeys element (PStr ''hello'')) (Inr RUnit) \<in> set (new_events fresh_agent
         (fst (type_text failing_keys (PStr ''name'') (PStr ''q'') (PStr ''hello'') (PBool True) fresh_agent))))"
    by (simp add: monad_defs call_defs action_defs double_defs variant_defs new_events_def
          keys_return_def)
  from submit_keystroke [of always_ok "PStr ''name''" "PStr ''q''" "PStr ''hello''" "PBool False" fresh_agent,
      OF surjective_pairing] h f
  have "filter is_submit (new_events fresh_agent
      (fst (type_text always_ok (PStr ''name'') (PStr ''q'') (PStr ''hello'') (PBool False) fresh_agent))) = []"
    by blast
  moreover from submit_keystroke [of always_ok "PStr ''name''" "PStr ''q''" "PStr ''hello''" "PBool True" fresh_agent,
      OF surjective_pairing] h t m
  have "length (filter is_submit (new_events fresh_agent
      (fst (type_text always_ok (PStr ''name'') (PStr ''q'') (PStr ''hello'') (PBool True) fresh_agent)))) = 1"
    by simp
  moreover from submit_keystroke [of failing_keys "PStr ''name''" "PStr ''q''" "PStr ''hello''" "PBool True" fresh_agent,
      OF surjective_pairing] h t n
  have "length (filter is_submit (new_events fresh_agent
      (fst (type_text failing_keys (PStr ''name'') (PStr ''q'') (PStr ''hello'') (PBool True) fresh_agent)))) = 0"
    by simp
  ultimately show ?thesis by blast
qed

text \<open>
  Two calls. With \<open>enter_after = True\<close> on an element whose \<open>send_keys\<close> raises, the call
  reaches the injection of the text and sends no submit key. With \<open>enter_after = False\<close>
  and the text \<open>Keys.RETURN\<close>, the one \<open>send_keys\<close> of the call injects the submit key.
\<close>

theorem submit_keystroke_counterexample:
  "truthy (PBool True)
   \<and> type_text failing_keys (PStr ''name'') (PStr ''q'') (PStr ''hello'') (PBool True) fresh_agent =
       (fresh_agent\<lparr>trace :=
          [Entered ''type_text'' [PStr ''name'', PStr ''q'', PStr ''hello'', PBool True],
           Called (UntilPresent 10 NAME (PStr ''q'')) (Inr (RElem 7)),
           Called (IsDisplayed 7) (Inr (RBool True)),
           Called (IsEnabled 7) (Inr (RBool True)),
           Called (Clear 7) (Inr RUnit),
           Called (SendKeys 7 (PStr ''hello'')) (Inl StaleElementReferenceException)]\<rparr>,
        Inr False)
   \<and> \<not> truthy (PBool False)
   \<and> filter is_submit (trace (fst (type_text always_ok (PStr ''name'') (PStr ''q'') (PStr keys_return)
        (PBool False) fresh_agent))) =
       [Called (SendKeys 7 (PStr keys_return)) (Inr RUnit)]"
  by (simp add: monad_defs call_defs action_defs double_defs variant_defs keys_return_def)

subsection \<open>The two components of the verdict\<close>

lemma run_steps_silent_failure:
  "run_steps env i plan a = (a', False, None) \<Longrightarrow>
     \<exists>pre st post a1. plan = pre @ st # post \<and> run_steps env i pre a = (a1, True, None)
        \<and> dict_get st ''action'' = PStr ''error'' \<and> dict_get st ''message'' = PNone"
proof (induction plan arbitrary: i a)
  case Nil
  then show ?case by simp
next
  case (Cons st plan)
  obtain a1 r where d: "dispatch env i st a = (a1, r)" by (cases "dispatch env i st a")
  show ?case
  proof (cases "step_verdict st r")
    case None
    with d Cons.prems have "run_steps env (Suc i) plan (fst (pause env 1 a1)) = (a', False, None)"
      by simp
    from Cons.IH [OF this] obtain pre st' post a2 where
      p: "plan = pre @ st' # post" "run_steps env (Suc i) pre (fst (pause env 1 a1)) = (a2, True, None)"
         "dict_get st' ''action'' = PStr ''error''" "dict_get st' ''message'' = PNone"
      by blast
    from d None p(2) have "run_steps env i (st # pre) a = (a2, True, None)" by simp
    moreover from p(1) have "st # plan = (st # pre) @ st' # post" by simp
    ultimately show ?thesis using p(3,4) by blast
  next
    case (Some v)
    with d Cons.prems have v: "v = (False, None)" by simp
    have e: "dict_get st ''action'' = PStr ''error''"
    proof (rule ccontr)
      assume "dict_get st ''action'' \<noteq> PStr ''error''"
      then have "\<forall>x. r \<noteq> Inr (PlanError x)"
        using d
        by (auto simp: dispatch_def Let_def bind_ex_def lift_ex_def return_ex_def raise_ex_def
              as_result_def split: if_splits prod.splits sum.splits)
      with Some v show False
        by (auto simp: step_verdict_def split: sum.splits dispatched.splits if_splits)
    qed
    with d have "r = Inr (PlanError (dict_get st ''message''))" by (simp add: dispatch_error)
    with Some v have "dict_get st ''message'' = PNone"
      by (auto simp: step_verdict_def split: if_splits)
    moreover have "run_steps env i [] a = (a, True, None)" by simp
    moreover have "st # plan = [] @ st # plan" by simp
    ultimately show ?thesis using e by blast
  qed
qed

lemma run_steps_ok_message: "run_steps env i plan a = (a', True, m) \<Longrightarrow> m = None"
proof (induction plan arbitrary: i a)
  case Nil
  then show ?case by simp
next
  case (Cons st plan)
  obtain a1 r where d: "dispatch env i st a = (a1, r)" by (cases "dispatch env i st a")
  show ?case
  proof (cases "step_verdict st r")
    case None
    with d Cons show ?thesis by simp
  next
    case (Some v)
    with d Cons.prems step_verdict_fails [OF Some] show ?thesis by auto
  qed
qed

text \<open>
  C9. In the pair \<open>execute_plan\<close> returns, a success never carries a message. A
  failure carries no message exactly when the run was stopped by an \<open>error\<close> record
  whose \<open>message\<close> is absent or \<open>None\<close>: the steps before the record all succeeded,
  and the interpreter passes that \<open>None\<close> on as the message.
\<close>

theorem verdict_coherence:
  assumes "execute_plan env plan a = (a', ok, m)"
  shows "(ok \<longrightarrow> m = None)
       \<and> (\<not> ok \<longrightarrow>
            (m = None) =
              (\<exists>pre st post a1. plan = pre @ st # post
                 \<and> execute_plan env pre a = (a1, True, None)
                 \<and> dict_get st ''action'' = PStr ''error''
                 \<and> dict_get st ''message'' = PNone))"
proof (intro conjI impI)
  assume ok
  with assms show "m = None"
    by (auto simp: execute_plan_def split: if_splits dest: run_steps_ok_message)
next
  assume n: "\<not> ok"
  show "(m = None) =
      (\<exists>pre st post a1. plan = pre @ st # post
         \<and> execute_plan env pre a = (a1, True, None)
         \<and> dict_get st ''action'' = PStr ''error''
         \<and> dict_get st ''message'' = PNone)"
  proof
    assume "m = None"
    with assms n have live: "driver_live a" and r: "run_steps env 0 plan a = (a', False, None)"
      by (auto simp: execute_plan_def split: if_splits)
    from run_steps_silent_failure [OF r] live show
      "\<exists>pre st post a1. plan = pre @ st # post
         \<and> execute_plan env pre a = (a1, True, None)
         \<and> dict_get st ''action'' = PStr ''error''
         \<and> dict_get st ''message'' = PNone"
      by (auto simp: execute_plan_def)
  next
    assume "\<exists>pre st post a1. plan = pre @ st # post
         \<and> execute_plan env pre a = (a1, True, None)
         \<and> dict_get st ''action'' = PStr ''error''
         \<and> dict_get st ''message'' = PNone"
    then obtain pre st post a1 where p: "plan = pre @ st # post"
      "execute_plan env pre a = (a1, True, None)"
      "dict_get st ''action'' = PStr ''error''" "dict_get st ''message'' = PNone"
      by blast
    from execute_plan_at_error [OF p(2,3), of post] p(1,4) assms show "m = None" by simp
  qed
qed

theorem verdict_coherence_witness:
  "snd (execute_plan always_ok [wait_step, bare_error_step] fresh_agent) = (False, None)
   \<and> (\<exists>pre st post a1. [wait_step, bare_error_step] = pre @ st # post
         \<and> execute_plan always_ok pre fresh_agent = (a1, True, None)
         \<and> dict_get st ''action'' = PStr ''error''
         \<and> dict_get st ''message'' = PNone)
   \<and> snd (execute_plan always_ok [sideways_step, bare_error_step] fresh_agent) =
       (False, Some (ActionFailed (PStr ''scroll'') sideways_step))"
proof -
  obtain a' where 1: "execute_plan always_ok [wait_step, bare_error_step] fresh_agent = (a', False, None)"
    by (simp add: monad_defs call_defs action_defs plan_defs double_defs wait_step_def bare_error_step_def)
  have 2: "snd (execute_plan always_ok [sideways_step, bare_error_step] fresh_agent) =
       (False, Some (ActionFailed (PStr ''scroll'') sideways_step))"
    by (simp add: monad_defs call_defs action_defs plan_defs double_defs sideways_step_def bare_error_step_def)
  from verdict_coherence [OF 1] 1 2 show ?thesis by simp
qed

text \<open>The plan \<open>[wait 0, {action: error}]\<close> returns a failure with no message.\<close>

theorem verdict_coherence_counterexample:
  "snd (execute_plan always_ok [wait_step, bare_error_step] fresh_agent) = (False, None)"
  by (simp add: monad_defs call_defs action_defs plan_defs double_defs wait_step_def bare_error_step_def)

end
